theory Spec2Isabelle
  imports Complex_Main "HOL-Library.Word"
begin

unbundle bit_operations_syntax

section \<open>Data model of the SGP virtual CPU\<close>

text \<open>
  The embedding follows \<^verbatim>\<open>source/sgp_mode/CPU.h\<close> and the instruction header
  (\<^verbatim>\<open>Instructions.h\<close>). Registers hold unsigned 32-bit values (the macro \<^verbatim>\<open>INST\<close>
  views every operand register through a \<^verbatim>\<open>uint32_t *\<close>). Points are C++ \<^verbatim>\<open>double\<close>
  values; they are modelled as \<^typ>\<open>real\<close>, so IEEE rounding, infinities and NaN are
  outside the model. Sizes and indices (\<^verbatim>\<open>size_t\<close>) are \<^typ>\<open>nat\<close>.
\<close>

type_synonym u32 = "32 word"
type_synonym tag_t = "64 word"

text \<open>
  The operation names of the instruction library. \<^verbatim>\<open>Library::GetOpCode\<close> maps a name
  to its \<^verbatim>\<open>uint8_t\<close> code; the codes are represented by the names themselves.
\<close>

datatype op =
    OP_Nop | OP_GlobalAnchor
  | OP_JumpIfNEq | OP_JumpIfLess
  | OP_Increment | OP_Decrement | OP_ShiftLeft | OP_ShiftRight
  | OP_Add | OP_Subtract | OP_Nand
  | OP_Push | OP_Pop | OP_SwapStack | OP_Swap
  | OP_Reproduce | OP_PrivateIO | OP_SharedIO | OP_Donate | OP_Steal
  | OP_ReuptakePublic | OP_ReuptakePrivate | OP_InternalPrivate | OP_InternalShared

text \<open>An instruction: op code, three register operand indices (\<^verbatim>\<open>args[0..2]\<close>), tag.\<close>

record instruction =
  op_code :: op
  arg0 :: nat
  arg1 :: nat
  arg2 :: nat
  tag :: tag_t

type_synonym program_t = "instruction list"

text \<open>
  The executing core: the register file (indexed by operand index) and the program
  counter. \<^verbatim>\<open>JumpToIndex\<close> of the core sets the program counter.
\<close>

record core =
  registers :: "nat \<Rightarrow> u32"
  program_counter :: nat

definition GetProgramCounter :: "core \<Rightarrow> nat" where
  "GetProgramCounter c = program_counter c"

definition JumpToIndex :: "nat \<Rightarrow> core \<Rightarrow> core" where
  "JumpToIndex i c = c\<lparr>program_counter := i\<rparr>"

text \<open>Operand access of the macro \<^verbatim>\<open>INST\<close>: \<^verbatim>\<open>*a\<close>, \<^verbatim>\<open>*b\<close>, \<^verbatim>\<open>*c\<close>.\<close>

definition rd_a :: "core \<Rightarrow> instruction \<Rightarrow> u32" where
  "rd_a c i = registers c (arg0 i)"

definition rd_b :: "core \<Rightarrow> instruction \<Rightarrow> u32" where
  "rd_b c i = registers c (arg1 i)"

definition rd_c :: "core \<Rightarrow> instruction \<Rightarrow> u32" where
  "rd_c c i = registers c (arg2 i)"

definition wr_a :: "u32 \<Rightarrow> core \<Rightarrow> instruction \<Rightarrow> core" where
  "wr_a v c i = c\<lparr>registers := (registers c)(arg0 i := v)\<rparr>"

definition wr_b :: "u32 \<Rightarrow> core \<Rightarrow> instruction \<Rightarrow> core" where
  "wr_b v c i = c\<lparr>registers := (registers c)(arg1 i := v)\<rparr>"

text \<open>A world position; \<^verbatim>\<open>IsValid\<close> holds unless the index is the invalid id.\<close>

record position =
  pos_index :: u32
  pop_id :: u32

definition invalid_id :: u32 where
  "invalid_id = - 1"

definition IsValid :: "position \<Rightarrow> bool" where
  "IsValid p = (pos_index p \<noteq> invalid_id)"

text \<open>
  The per-organism CPU state. \<^verbatim>\<open>host\<close> is the pointer to the organism that owns the
  CPU (a host or a symbiont), modelled as its identifier in the world's organism store.
  \<^verbatim>\<open>in_progress_repro\<close> is \<open>-1\<close> while no reproduction is pending. The vectors reached
  through pointers (\<^verbatim>\<open>internalEnvironment\<close>, \<^verbatim>\<open>internalEnvironmentPrivate\<close>,
  \<^verbatim>\<open>shared_completed\<close>) are modelled by their contents.
\<close>

record CPUState =
  host :: nat
  location :: position
  in_progress_repro :: int
  stack :: "u32 list"
  stack2 :: "u32 list"
  jump_table :: "nat list"
  input_buf :: "u32 list"
  self_completed :: "bool list"
  shared_completed :: "bool list"
  internalEnvironment :: "u32 list"
  internalEnvironmentPrivate :: "u32 list"
  internalPrivate :: bool

section \<open>Register instructions\<close>

definition Increment :: "core \<Rightarrow> instruction \<Rightarrow> core" where
  "Increment c i = wr_a (rd_a c i + 1) c i"

definition Decrement :: "core \<Rightarrow> instruction \<Rightarrow> core" where
  "Decrement c i = wr_a (rd_a c i - 1) c i"

definition ShiftLeft :: "core \<Rightarrow> instruction \<Rightarrow> core" where
  "ShiftLeft c i = wr_a (push_bit 1 (rd_a c i)) c i"

definition ShiftRight :: "core \<Rightarrow> instruction \<Rightarrow> core" where
  "ShiftRight c i = wr_a (drop_bit 1 (rd_a c i)) c i"

definition Add :: "core \<Rightarrow> instruction \<Rightarrow> core" where
  "Add c i = wr_a (rd_b c i + rd_c c i) c i"

definition Subtract :: "core \<Rightarrow> instruction \<Rightarrow> core" where
  "Subtract c i = wr_a (rd_b c i - rd_c c i) c i"

definition Nand :: "core \<Rightarrow> instruction \<Rightarrow> core" where
  "Nand c i = wr_a (NOT (rd_b c i AND rd_c c i)) c i"

definition Swap :: "core \<Rightarrow> instruction \<Rightarrow> core" where
  "Swap c i = (let x = rd_a c i; y = rd_b c i in wr_b x (wr_a y c i) i)"

section \<open>Conditional jumps through the jump table\<close>

text \<open>
  Reading \<^verbatim>\<open>state.jump_table[pc]\<close> beyond the end of the vector is a failed bounds
  assertion (undefined behaviour in a release build); the model returns an error there.
\<close>

datatype error = OutOfBounds

definition JumpIfNEq :: "core \<Rightarrow> instruction \<Rightarrow> CPUState \<Rightarrow> error + core" where
  "JumpIfNEq c i st =
     (if rd_a c i \<noteq> rd_b c i then
        (if GetProgramCounter c < length (jump_table st)
         then Inr (JumpToIndex (jump_table st ! GetProgramCounter c) c)
         else Inl OutOfBounds)
      else Inr c)"

definition JumpIfLess :: "core \<Rightarrow> instruction \<Rightarrow> CPUState \<Rightarrow> error + core" where
  "JumpIfLess c i st =
     (if rd_a c i < rd_b c i then
        (if GetProgramCounter c < length (jump_table st)
         then Inr (JumpToIndex (jump_table st ! GetProgramCounter c) c)
         else Inl OutOfBounds)
      else Inr c)"

section \<open>Stack instructions\<close>

text \<open>
  A \<^verbatim>\<open>vector\<close> is a list whose back is the last element: \<^verbatim>\<open>push_back\<close> appends,
  \<^verbatim>\<open>back\<close> is \<^const>\<open>last\<close> and \<^verbatim>\<open>pop_back\<close> is \<^const>\<open>butlast\<close>.
\<close>

definition Push :: "core \<Rightarrow> instruction \<Rightarrow> CPUState \<Rightarrow> core \<times> CPUState" where
  "Push c i st =
     (if length (stack st) < 16 then (c, st\<lparr>stack := stack st @ [rd_a c i]\<rparr>)
      else (c, st))"

definition Pop :: "core \<Rightarrow> instruction \<Rightarrow> CPUState \<Rightarrow> core \<times> CPUState" where
  "Pop c i st =
     (if stack st = [] then (wr_a 0 c i, st)
      else (wr_a (last (stack st)) c i, st\<lparr>stack := butlast (stack st)\<rparr>))"

definition SwapStack :: "core \<Rightarrow> instruction \<Rightarrow> CPUState \<Rightarrow> core \<times> CPUState" where
  "SwapStack c i st = (c, st\<lparr>stack := stack2 st, stack2 := stack st\<rparr>)"

definition InternalPrivate :: "core \<Rightarrow> instruction \<Rightarrow> CPUState \<Rightarrow> core \<times> CPUState" where
  "InternalPrivate c i st = (c, st\<lparr>internalPrivate := True\<rparr>)"

definition InternalShared :: "core \<Rightarrow> instruction \<Rightarrow> CPUState \<Rightarrow> core \<times> CPUState" where
  "InternalShared c i st = (c, st\<lparr>internalPrivate := False\<rparr>)"

text \<open>
  Loading a value into the operand register and pushing it, for each value of a list in
  turn; popping \<open>n\<close> times, collecting the value the operand register holds after each
  pop. These drive \<^const>\<open>Push\<close> and \<^const>\<open>Pop\<close> in the round-trip property.
\<close>

fun push_values :: "u32 list \<Rightarrow> core \<Rightarrow> instruction \<Rightarrow> CPUState \<Rightarrow> core \<times> CPUState" where
  "push_values [] c i st = (c, st)"
| "push_values (v # vs) c i st =
     (case Push (wr_a v c i) i st of (c', st') \<Rightarrow> push_values vs c' i st')"

fun pop_values :: "nat \<Rightarrow> core \<Rightarrow> instruction \<Rightarrow> CPUState \<Rightarrow> u32 list \<times> core \<times> CPUState" where
  "pop_values 0 c i st = ([], c, st)"
| "pop_values (Suc n) c i st =
     (case Pop c i st of (c', st') \<Rightarrow>
        (case pop_values n c' i st' of (out, c'', st'') \<Rightarrow> (rd_a c' i # out, c'', st'')))"

section \<open>Organisms and the world\<close>

text \<open>
  Modelled from the spec: the organism interface (\<^verbatim>\<open>Organism\<close>, \<^verbatim>\<open>Host\<close>), which the
  instructions consume as a role query, a points balance that is read, credited and
  debited, and an optional host reference for symbionts. \<^verbatim>\<open>AddPoints\<close> adds its
  (possibly negative) argument to the balance.
\<close>

record Organism =
  IsHost :: bool
  GetPoints :: real
  GetHost :: "nat option"

definition AddPoints :: "real \<Rightarrow> Organism \<Rightarrow> Organism" where
  "AddPoints x org = org\<lparr>GetPoints := GetPoints org + x\<rparr>"

record Config =
  HOST_REPRO_RES :: real
  SYM_HORIZ_TRANS_RES :: real
  RANDOM_IO_INPUT :: bool
  DONATION_STEAL_INST :: bool
  DONATE_PENALTY :: real
  STEAL_PENALTY :: real
  MUTATION_SIZE :: real

text \<open>
  The world as the instructions see it: the configuration, the store of organisms
  (pointers are identifiers into \<open>orgs\<close>), the reproduction queue, the task set (its
  cardinality and its scorer \<^verbatim>\<open>CheckTasks(state, value, shared)\<close>, taken as a function
  that returns the score), the three monitoring sinks as the lists of recorded data,
  and the values written to standard output by the reuptake instructions.
\<close>

record World =
  GetConfig :: Config
  orgs :: "nat \<Rightarrow> Organism"
  to_reproduce :: "(nat \<times> position) list"
  NumTasks :: nat
  CheckTasks :: "CPUState \<Rightarrow> u32 \<Rightarrow> bool \<Rightarrow> real"
  SymEarnedDataNode :: "real list"
  SymDonatedDataNode :: "real list"
  SymStolenDataNode :: "real list"
  cout :: "u32 list"

definition org_AddPoints :: "nat \<Rightarrow> real \<Rightarrow> World \<Rightarrow> World" where
  "org_AddPoints p x w = w\<lparr>orgs := (orgs w)(p := AddPoints x (orgs w p))\<rparr>"

type_synonym machine = "core \<times> CPUState \<times> World"

section \<open>Reproduction\<close>

definition Reproduce :: "core \<Rightarrow> instruction \<Rightarrow> CPUState \<Rightarrow> World \<Rightarrow> machine" where
  "Reproduce c i st w =
     (if in_progress_repro st \<noteq> - 1 \<or> \<not> IsValid (location st) then (c, st, w)
      else
        let points = (if IsHost (orgs w (host st))
                      then HOST_REPRO_RES (GetConfig w)
                      else SYM_HORIZ_TRANS_RES (GetConfig w))
        in if GetPoints (orgs w (host st)) > points then
             let w1 = org_AddPoints (host st) (- points) w;
                 st1 = st\<lparr>in_progress_repro := int (length (to_reproduce w1))\<rparr>;
                 w2 = w1\<lparr>to_reproduce := to_reproduce w1 @ [(host st, location st)]\<rparr>
             in (c, st1, w2)
           else (c, st, w))"

section \<open>Task scoring and I/O\<close>

text \<open>
  The next input value: the constant 1, or, with \<^verbatim>\<open>RANDOM_IO_INPUT\<close>, the value drawn
  from the thread-local random generator (truncated to the register width), which the
  model takes as the argument \<open>rnd\<close>.
\<close>

definition next_input :: "World \<Rightarrow> u32 \<Rightarrow> u32" where
  "next_input w rnd = (if RANDOM_IO_INPUT (GetConfig w) then rnd else 1)"

definition PrivateIO :: "u32 \<Rightarrow> core \<Rightarrow> instruction \<Rightarrow> CPUState \<Rightarrow> World \<Rightarrow> machine" where
  "PrivateIO rnd c i st w =
     (let score = CheckTasks w st (rd_a c i) False;
          w1 = (if score \<noteq> 0 then
                  (if \<not> IsHost (orgs w (host st)) then
                     org_AddPoints (host st) score
                       (w\<lparr>SymEarnedDataNode := SymEarnedDataNode w @ [score]\<rparr>)
                   else org_AddPoints (host st) (score * 0.75) w)
                else w);
          next = next_input w1 rnd
      in (wr_a next c i, st\<lparr>input_buf := input_buf st @ [next]\<rparr>, w1))"

definition AddOrganismPoints :: "CPUState \<Rightarrow> u32 \<Rightarrow> World \<Rightarrow> World" where
  "AddOrganismPoints st output w =
     (let score = CheckTasks w st output True
      in if score \<noteq> 0 then
           (let w1 = org_AddPoints (host st) score w
            in if \<not> IsHost (orgs w1 (host st))
               then w1\<lparr>SymEarnedDataNode := SymEarnedDataNode w1 @ [score]\<rparr>
               else w1)
         else w)"

definition SharedIO :: "u32 \<Rightarrow> core \<Rightarrow> instruction \<Rightarrow> CPUState \<Rightarrow> World \<Rightarrow> machine" where
  "SharedIO rnd c i st w =
     (let w1 = AddOrganismPoints st (rd_a c i) w;
          next = next_input w1 rnd
      in (wr_a next c i, st\<lparr>input_buf := input_buf st @ [next]\<rparr>, w1))"

section \<open>Donation and theft\<close>

definition Donate :: "core \<Rightarrow> instruction \<Rightarrow> CPUState \<Rightarrow> World \<Rightarrow> machine" where
  "Donate c i st w =
     (if DONATION_STEAL_INST (GetConfig w) then
        (if IsHost (orgs w (host st)) then (c, st, w)
         else
           (case GetHost (orgs w (host st)) of
              None \<Rightarrow> (c, st, w)
            | Some h \<Rightarrow>
                let to_donate =
                      min (GetPoints (orgs w (host st)))
                          ((GetPoints (orgs w (host st)) + GetPoints (orgs w h)) * 0.20);
                    w1 = w\<lparr>SymDonatedDataNode := SymDonatedDataNode w @ [to_donate]\<rparr>;
                    w2 = org_AddPoints h
                           (to_donate * (1.0 - DONATE_PENALTY (GetConfig w1))) w1;
                    w3 = org_AddPoints (host st) (- to_donate) w2
                in (c, st, w3)))
      else (c, st, w))"

definition Steal :: "core \<Rightarrow> instruction \<Rightarrow> CPUState \<Rightarrow> World \<Rightarrow> machine" where
  "Steal c i st w =
     (if DONATION_STEAL_INST (GetConfig w) then
        (if IsHost (orgs w (host st)) then (c, st, w)
         else
           (case GetHost (orgs w (host st)) of
              None \<Rightarrow> (c, st, w)
            | Some h \<Rightarrow>
                let to_steal =
                      min (GetPoints (orgs w h))
                          ((GetPoints (orgs w (host st)) + GetPoints (orgs w h)) * 0.20);
                    w1 = w\<lparr>SymStolenDataNode := SymStolenDataNode w @ [to_steal]\<rparr>;
                    w2 = org_AddPoints h (- to_steal) w1;
                    w3 = org_AddPoints (host st)
                           (to_steal * (1.0 - STEAL_PENALTY (GetConfig w2))) w2
                in (c, st, w3)))
      else (c, st, w))"

section \<open>Reuptake from the internal environment\<close>

text \<open>
  Modelled from the spec: \<^verbatim>\<open>input_buf.push\<close> appends the value to the input buffer
  (the buffer type is declared in \<^verbatim>\<open>CPUState.h\<close>).
\<close>

definition ReuptakePublic :: "core \<Rightarrow> instruction \<Rightarrow> CPUState \<Rightarrow> World \<Rightarrow> machine" where
  "ReuptakePublic c i st w =
     (let w1 = AddOrganismPoints st (rd_a c i) w
      in if length (internalEnvironment st) > 0 then
           (let next = last (internalEnvironment st);
                w2 = (if IsHost (orgs w1 (host st)) then w1\<lparr>cout := cout w1 @ [next]\<rparr>
                      else w1);
                st1 = st\<lparr>internalEnvironment := butlast (internalEnvironment st)\<rparr>
            in (wr_a next c i, st1\<lparr>input_buf := input_buf st1 @ [next]\<rparr>, w2))
         else (wr_a 0 c i, st, w1))"

definition ReuptakePrivate :: "core \<Rightarrow> instruction \<Rightarrow> CPUState \<Rightarrow> World \<Rightarrow> machine" where
  "ReuptakePrivate c i st w =
     (let w1 = AddOrganismPoints st (rd_a c i) w
      in if length (internalEnvironmentPrivate st) > 0 then
           (let next = last (internalEnvironmentPrivate st);
                w2 = (if IsHost (orgs w1 (host st)) then w1\<lparr>cout := cout w1 @ [next]\<rparr>
                      else w1);
                st1 = st\<lparr>internalEnvironmentPrivate :=
                             butlast (internalEnvironmentPrivate st)\<rparr>
            in (wr_a next c i, st1\<lparr>input_buf := input_buf st1 @ [next]\<rparr>, w2))
         else (wr_a 0 c i, st, w1))"

section \<open>The CPU: building the jump table\<close>

text \<open>
  The global jump table of the active core, as \<^verbatim>\<open>InitializeState\<close> uses it:
  \<^verbatim>\<open>MatchRegulated\<close> returns the identifiers of the anchors that match a tag, best match
  first, and \<^verbatim>\<open>GetVal\<close> gives the program index of an anchor. Both belong to the
  SignalGP-Lite library and are parameters of the model.
\<close>

record JumpTable =
  MatchRegulated :: "tag_t \<Rightarrow> nat list"
  GetVal :: "nat \<Rightarrow> nat"

text \<open>\<^verbatim>\<open>vector::resize(n)\<close>: truncate, or extend with value-initialised elements.\<close>

definition resize :: "nat \<Rightarrow> 'a \<Rightarrow> 'a list \<Rightarrow> 'a list" where
  "resize n d xs = take n xs @ replicate (n - length xs) d"

definition jump_class :: "instruction \<Rightarrow> bool" where
  "jump_class i = (op_code i = OP_JumpIfNEq \<or> op_code i = OP_JumpIfLess)"

definition resolve :: "JumpTable \<Rightarrow> instruction \<Rightarrow> nat \<Rightarrow> nat" where
  "resolve table i idx =
     (case MatchRegulated table (tag i) of
        [] \<Rightarrow> idx + 1
      | e # _ \<Rightarrow> GetVal table e)"

text \<open>
  The loop of \<^verbatim>\<open>InitializeState\<close> over the program, with the running index \<open>idx\<close>.
  A write \<^verbatim>\<open>state.jump_table[idx]\<close> beyond the end of the table is an error.
\<close>

fun fill_jump_table :: "JumpTable \<Rightarrow> program_t \<Rightarrow> nat \<Rightarrow> nat list \<Rightarrow> error + nat list" where
  "fill_jump_table table [] idx jt = Inr jt"
| "fill_jump_table table (i # rest) idx jt =
     (if jump_class i then
        (if idx < length jt
         then fill_jump_table table rest (idx + 1) (jt[idx := resolve table i idx])
         else Inl OutOfBounds)
      else fill_jump_table table rest (idx + 1) jt)"

definition InitializeState :: "JumpTable \<Rightarrow> World \<Rightarrow> program_t \<Rightarrow> CPUState \<Rightarrow> error + CPUState" where
  "InitializeState table w prog st =
     (case fill_jump_table table prog 0 (resize 100 0 (jump_table st)) of
        Inl e \<Rightarrow> Inl e
      | Inr jt \<Rightarrow>
          Inr (st\<lparr>jump_table := jt,
                  self_completed := resize (NumTasks w) False (self_completed st),
                  shared_completed := resize (NumTasks w) False (shared_completed st)\<rparr>))"

text \<open>
  Modelled from the spec: the constructor \<^verbatim>\<open>CPUState(organism, world)\<close> (declared in
  \<^verbatim>\<open>CPUState.h\<close>): a fresh state with empty vectors and no pending reproduction.
\<close>

definition new_CPUState :: "nat \<Rightarrow> CPUState" where
  "new_CPUState organism =
     \<lparr>host = organism, location = \<lparr>pos_index = invalid_id, pop_id = 0\<rparr>,
      in_progress_repro = - 1, stack = [], stack2 = [], jump_table = [], input_buf = [],
      self_completed = [], shared_completed = [], internalEnvironment = [],
      internalEnvironmentPrivate = [], internalPrivate = False\<rparr>"

text \<open>
  The CPU: the program and the state. \<open>anchors\<close> stands for
  \<^verbatim>\<open>cpu.InitializeAnchors(program)\<close> followed by taking the global jump table of the
  active core (launched at the start tag when there is none), and \<open>mut\<close> for
  \<^verbatim>\<open>program.ApplyPointMutations(rate)\<close>; both are library code and parameters here.
\<close>

record CPU =
  program :: program_t
  state :: CPUState

definition CPU_build :: "(program_t \<Rightarrow> JumpTable) \<Rightarrow> World \<Rightarrow> program_t \<Rightarrow> CPUState \<Rightarrow> error + CPU" where
  "CPU_build anchors w prog st =
     (case InitializeState (anchors prog) w prog st of
        Inl e \<Rightarrow> Inl e
      | Inr st' \<Rightarrow> Inr \<lparr>program = prog, state = st'\<rparr>)"

definition CPU_new :: "(program_t \<Rightarrow> JumpTable) \<Rightarrow> World \<Rightarrow> nat \<Rightarrow> program_t \<Rightarrow> error + CPU" where
  "CPU_new anchors w organism prog = CPU_build anchors w prog (new_CPUState organism)"

definition Reset :: "(program_t \<Rightarrow> JumpTable) \<Rightarrow> World \<Rightarrow> CPU \<Rightarrow> error + CPU" where
  "Reset anchors w cpu = CPU_build anchors w (program cpu) (new_CPUState (host (state cpu)))"

definition Mutate :: "(real \<Rightarrow> program_t \<Rightarrow> program_t) \<Rightarrow> (program_t \<Rightarrow> JumpTable) \<Rightarrow> World \<Rightarrow> CPU \<Rightarrow> error + CPU" where
  "Mutate mut anchors w cpu =
     CPU_build anchors w (mut (MUTATION_SIZE (GetConfig w) * 15.0) (program cpu)) (state cpu)"

text \<open>The size of the jump table of a CPU that was built, if it was.\<close>

definition jump_table_size :: "error + CPU \<Rightarrow> nat option" where
  "jump_table_size r = (case r of Inl e \<Rightarrow> None | Inr cpu \<Rightarrow> Some (length (jump_table (state cpu))))"

section \<open>A small concrete world\<close>

text \<open>
  Concrete inputs on which the properties below are evaluated: organism 0 is a host with
  100 points, every other organism is a symbiont of host 0 with 50 points; the scorer
  returns 10 for every value. \<open>demo_scorer\<close> instead returns 4 when called with the
  shared flag and 0 without it.
\<close>

definition demo_config :: Config where
  "demo_config =
     \<lparr>HOST_REPRO_RES = 10, SYM_HORIZ_TRANS_RES = 5, RANDOM_IO_INPUT = False,
      DONATION_STEAL_INST = True, DONATE_PENALTY = 1 / 10, STEAL_PENALTY = 1 / 10,
      MUTATION_SIZE = 0\<rparr>"

definition demo_world :: World where
  "demo_world =
     \<lparr>GetConfig = demo_config,
      orgs = (\<lambda>p. if p = 0 then \<lparr>IsHost = True, GetPoints = 100, GetHost = None\<rparr>
                  else \<lparr>IsHost = False, GetPoints = 50, GetHost = Some 0\<rparr>),
      to_reproduce = [], NumTasks = 9, CheckTasks = (\<lambda>st v shared. 10),
      SymEarnedDataNode = [], SymDonatedDataNode = [], SymStolenDataNode = [], cout = []\<rparr>"

definition demo_scorer :: "CPUState \<Rightarrow> u32 \<Rightarrow> bool \<Rightarrow> real" where
  "demo_scorer st v shared = (if shared then 4 else 0)"

definition demo_world_flag :: World where
  "demo_world_flag = demo_world\<lparr>CheckTasks := demo_scorer\<rparr>"

definition demo_core :: core where
  "demo_core = \<lparr>registers = (\<lambda>_. 0), program_counter = 0\<rparr>"

definition demo_inst :: instruction where
  "demo_inst = \<lparr>op_code = OP_Nop, arg0 = 0, arg1 = 1, arg2 = 2, tag = 0\<rparr>"

definition demo_state :: "nat \<Rightarrow> CPUState" where
  "demo_state organism = (new_CPUState organism)\<lparr>location := \<lparr>pos_index = 3, pop_id = 0\<rparr>\<rparr>"

definition demo_state_env :: CPUState where
  "demo_state_env = (demo_state 0)\<lparr>internalEnvironment := [7, 9]\<rparr>"

definition demo_table :: JumpTable where
  "demo_table =
     \<lparr>MatchRegulated = (\<lambda>t. if t = 1 then [5, 2] else []), GetVal = (\<lambda>u. u + 10)\<rparr>"

definition demo_anchors :: "program_t \<Rightarrow> JumpTable" where
  "demo_anchors prog = demo_table"

definition demo_jump :: instruction where
  "demo_jump = \<lparr>op_code = OP_JumpIfLess, arg0 = 0, arg1 = 1, arg2 = 2, tag = 0\<rparr>"

definition demo_program :: program_t where
  "demo_program =
     [\<lparr>op_code = OP_JumpIfNEq, arg0 = 0, arg1 = 1, arg2 = 2, tag = 1\<rparr>,
      \<lparr>op_code = OP_Increment, arg0 = 0, arg1 = 1, arg2 = 2, tag = 0\<rparr>,
      demo_jump]"

definition demo_long_program :: program_t where
  "demo_long_program = replicate 100 demo_inst @ [demo_jump]"

section \<open>Properties of the register instructions\<close>

lemma rd_wr_a: "rd_a (wr_a v c i) i = v"
  by (simp add: rd_a_def wr_a_def)

text \<open>
  C9. Register arithmetic is unsigned 32-bit arithmetic with wrap-around: \<^const>\<open>Increment\<close>
  and \<^const>\<open>Decrement\<close> add and subtract one modulo \<open>2^32\<close>, \<^const>\<open>Add\<close> stores
  \<open>(b + c) mod 2^32\<close>, \<^const>\<open>Subtract\<close> stores \<open>(b - c) mod 2^32\<close>, \<^const>\<open>Nand\<close>
  stores the bitwise complement of \<open>b AND c\<close> (bit \<open>n\<close> of the result is set exactly
  when \<open>n\<close> is one of the 32 bit positions and not both operand bits are set), and
  \<^const>\<open>ShiftLeft\<close> and \<^const>\<open>ShiftRight\<close> shift the register by exactly one bit
  (doubling modulo \<open>2^32\<close>, halving).
\<close>

theorem register_arithmetic_wraps:
  "unat (rd_a (Increment c i) i) = (unat (rd_a c i) + 1) mod 2 ^ 32
   \<and> uint (rd_a (Decrement c i) i) = (uint (rd_a c i) - 1) mod 2 ^ 32
   \<and> unat (rd_a (Add c i) i) = (unat (rd_b c i) + unat (rd_c c i)) mod 2 ^ 32
   \<and> uint (rd_a (Subtract c i) i) = (uint (rd_b c i) - uint (rd_c c i)) mod 2 ^ 32
   \<and> bit (rd_a (Nand c i) i) n = (n < 32 \<and> \<not> (bit (rd_b c i) n \<and> bit (rd_c c i) n))
   \<and> unat (rd_a (ShiftLeft c i) i) = (2 * unat (rd_a c i)) mod 2 ^ 32
   \<and> unat (rd_a (ShiftRight c i) i) = unat (rd_a c i) div 2"
proof (intro conjI)
  show "unat (rd_a (Increment c i) i) = (unat (rd_a c i) + 1) mod 2 ^ 32"
    by (simp add: Increment_def rd_wr_a unat_word_ariths)
  show "uint (rd_a (Decrement c i) i) = (uint (rd_a c i) - 1) mod 2 ^ 32"
    by (simp add: Decrement_def rd_wr_a uint_word_ariths)
  show "unat (rd_a (Add c i) i) = (unat (rd_b c i) + unat (rd_c c i)) mod 2 ^ 32"
    by (simp add: Add_def rd_wr_a unat_word_ariths)
  show "uint (rd_a (Subtract c i) i) = (uint (rd_b c i) - uint (rd_c c i)) mod 2 ^ 32"
    by (simp add: Subtract_def rd_wr_a uint_word_ariths)
  show "bit (rd_a (Nand c i) i) n = (n < 32 \<and> \<not> (bit (rd_b c i) n \<and> bit (rd_c c i) n))"
    by (auto simp add: Nand_def rd_wr_a bit_simps)
  have "unat (push_bit 1 (rd_a c i)) = (2 * unat (rd_a c i)) mod 2 ^ 32"
    by (simp add: unat_word_ariths) presburger
  then show "unat (rd_a (ShiftLeft c i) i) = (2 * unat (rd_a c i)) mod 2 ^ 32"
    by (simp add: ShiftLeft_def rd_wr_a)
  show "unat (rd_a (ShiftRight c i) i) = unat (rd_a c i) div 2"
    by (simp add: ShiftRight_def rd_wr_a drop_bit_eq_div unat_div)
qed

theorem register_arithmetic_wraps_witness:
  "unat (rd_a (Increment \<lparr>registers = (\<lambda>_. 0)(0 := 4294967295, 1 := 1, 2 := 2), program_counter = 0\<rparr>
                \<lparr>op_code = OP_Increment, arg0 = 0, arg1 = 1, arg2 = 2, tag = 0\<rparr>)
          \<lparr>op_code = OP_Increment, arg0 = 0, arg1 = 1, arg2 = 2, tag = 0\<rparr>) = 0
   \<and> uint (rd_a (Subtract \<lparr>registers = (\<lambda>_. 0)(0 := 4294967295, 1 := 1, 2 := 2), program_counter = 0\<rparr>
                \<lparr>op_code = OP_Increment, arg0 = 0, arg1 = 1, arg2 = 2, tag = 0\<rparr>)
          \<lparr>op_code = OP_Increment, arg0 = 0, arg1 = 1, arg2 = 2, tag = 0\<rparr>) = 4294967295
   \<and> unat (rd_a (ShiftLeft \<lparr>registers = (\<lambda>_. 0)(0 := 4294967295, 1 := 1, 2 := 2), program_counter = 0\<rparr>
                \<lparr>op_code = OP_Increment, arg0 = 0, arg1 = 1, arg2 = 2, tag = 0\<rparr>)
          \<lparr>op_code = OP_Increment, arg0 = 0, arg1 = 1, arg2 = 2, tag = 0\<rparr>) = 4294967294"
  using register_arithmetic_wraps
          [of "\<lparr>registers = (\<lambda>_. 0)(0 := 4294967295, 1 := 1, 2 := 2), program_counter = 0\<rparr>"
              "\<lparr>op_code = OP_Increment, arg0 = 0, arg1 = 1, arg2 = 2, tag = 0\<rparr>" 0]
  by (simp add: rd_a_def rd_b_def rd_c_def)

section \<open>Properties of the conditional jumps\<close>

text \<open>
  C7. When \<^const>\<open>JumpIfNEq\<close> or \<^const>\<open>JumpIfLess\<close> executes with the program counter
  inside the jump table, the program counter becomes the jump-table entry at the current
  program-counter position exactly when the condition of the opcode holds on the two
  operand registers (unequal for \<^const>\<open>JumpIfNEq\<close>, first less than second as unsigned
  values for \<^const>\<open>JumpIfLess\<close>); otherwise it is unchanged. The registers are never
  changed. With \<open>a = 5\<close>, \<open>b = 5\<close> and entry 7 at index 2, \<^const>\<open>JumpIfNEq\<close> does not
  jump; with \<open>a = 5\<close>, \<open>b = 6\<close> it jumps to 7.
\<close>

theorem conditional_jump_uses_table:
  assumes "GetProgramCounter c < length (jump_table st)"
  shows "JumpIfNEq c i st =
           Inr (c\<lparr>program_counter :=
                    (if rd_a c i \<noteq> rd_b c i then jump_table st ! program_counter c
                     else program_counter c)\<rparr>)
       \<and> JumpIfLess c i st =
           Inr (c\<lparr>program_counter :=
                    (if unat (rd_a c i) < unat (rd_b c i) then jump_table st ! program_counter c
                     else program_counter c)\<rparr>)"
  using assms
  by (simp add: JumpIfNEq_def JumpIfLess_def JumpToIndex_def GetProgramCounter_def
      word_less_nat_alt)

theorem conditional_jump_uses_table_witness:
  "JumpIfNEq \<lparr>registers = (\<lambda>_. 0)(0 := 5, 1 := 5), program_counter = 2\<rparr>
       \<lparr>op_code = OP_JumpIfNEq, arg0 = 0, arg1 = 1, arg2 = 2, tag = 0\<rparr>
       ((new_CPUState 0)\<lparr>jump_table := [0, 0, 7]\<rparr>)
     = Inr \<lparr>registers = (\<lambda>_. 0)(0 := 5, 1 := 5), program_counter = 2\<rparr>
   \<and> JumpIfNEq \<lparr>registers = (\<lambda>_. 0)(0 := 5, 1 := 6), program_counter = 2\<rparr>
       \<lparr>op_code = OP_JumpIfNEq, arg0 = 0, arg1 = 1, arg2 = 2, tag = 0\<rparr>
       ((new_CPUState 0)\<lparr>jump_table := [0, 0, 7]\<rparr>)
     = Inr \<lparr>registers = (\<lambda>_. 0)(0 := 5, 1 := 6), program_counter = 7\<rparr>
   \<and> JumpIfLess \<lparr>registers = (\<lambda>_. 0)(0 := 5, 1 := 6), program_counter = 2\<rparr>
       \<lparr>op_code = OP_JumpIfLess, arg0 = 0, arg1 = 1, arg2 = 2, tag = 0\<rparr>
       ((new_CPUState 0)\<lparr>jump_table := [0, 0, 7]\<rparr>)
     = Inr \<lparr>registers = (\<lambda>_. 0)(0 := 5, 1 := 6), program_counter = 7\<rparr>"
  using conditional_jump_uses_table
          [of "\<lparr>registers = (\<lambda>_. 0)(0 := 5, 1 := 5), program_counter = 2\<rparr>"
              "(new_CPUState 0)\<lparr>jump_table := [0, 0, 7]\<rparr>"
              "\<lparr>op_code = OP_JumpIfNEq, arg0 = 0, arg1 = 1, arg2 = 2, tag = 0\<rparr>"]
        conditional_jump_uses_table
          [of "\<lparr>registers = (\<lambda>_. 0)(0 := 5, 1 := 6), program_counter = 2\<rparr>"
              "(new_CPUState 0)\<lparr>jump_table := [0, 0, 7]\<rparr>"
              "\<lparr>op_code = OP_JumpIfNEq, arg0 = 0, arg1 = 1, arg2 = 2, tag = 0\<rparr>"]
        conditional_jump_uses_table
          [of "\<lparr>registers = (\<lambda>_. 0)(0 := 5, 1 := 6), program_counter = 2\<rparr>"
              "(new_CPUState 0)\<lparr>jump_table := [0, 0, 7]\<rparr>"
              "\<lparr>op_code = OP_JumpIfLess, arg0 = 0, arg1 = 1, arg2 = 2, tag = 0\<rparr>"]
  by (simp add: GetProgramCounter_def rd_a_def rd_b_def new_CPUState_def)

section \<open>Properties of the stack instructions\<close>

lemma push_values_stack:
  "length (stack st) + length vs \<le> 16 \<Longrightarrow>
     stack (snd (push_values vs c i st)) = stack st @ vs"
proof (induction vs arbitrary: c st)
  case Nil
  then show ?case by simp
next
  case (Cons v vs)
  have "Push (wr_a v c i) i st = (wr_a v c i, st\<lparr>stack := stack st @ [v]\<rparr>)"
    using Cons.prems by (simp add: Push_def rd_wr_a)
  then show ?case
    using Cons.IH [of "st\<lparr>stack := stack st @ [v]\<rparr>" "wr_a v c i"] Cons.prems by simp
qed

lemma pop_values_stack:
  "stack st = xs @ ys \<Longrightarrow> length ys = n \<Longrightarrow>
     fst (pop_values n c i st) = rev ys \<and> stack (snd (snd (pop_values n c i st))) = xs"
proof (induction n arbitrary: c st ys)
  case 0
  then show ?case by simp
next
  case (Suc n)
  then obtain zs z where ys: "ys = zs @ [z]"
    by (metis length_Suc_conv_rev)
  have ne: "stack st \<noteq> []" using Suc.prems ys by simp
  have l: "last (stack st) = z" and b: "butlast (stack st) = xs @ zs"
    using Suc.prems ys by (simp_all add: butlast_append)
  have p: "Pop c i st = (wr_a z c i, st\<lparr>stack := xs @ zs\<rparr>)"
    using ne l b by (simp add: Pop_def)
  have n: "length zs = n" using Suc.prems ys by simp
  show ?case
    using Suc.IH [of "st\<lparr>stack := xs @ zs\<rparr>" zs "wr_a z c i"] n p ys
    by (auto simp add: rd_wr_a split: prod.splits)
qed

text \<open>
  C8. From an empty primary stack, pushing the sixteen values \<open>vs\<close> and then popping
  sixteen times returns the values in reverse order into the operand register and leaves
  the stack empty; a seventeenth push onto the full stack changes nothing (the value is
  dropped); a pop from the empty stack writes 0 to the operand register and leaves the
  stack empty.
\<close>

theorem push_pop_round_trip:
  assumes "stack st = []" and "length vs = 16"
  shows "fst (pop_values 16 (fst (push_values vs c i st)) i (snd (push_values vs c i st))) = rev vs
       \<and> stack (snd (snd (pop_values 16 (fst (push_values vs c i st)) i
                                 (snd (push_values vs c i st))))) = []
       \<and> Push (wr_a v (fst (push_values vs c i st)) i) i (snd (push_values vs c i st))
           = (wr_a v (fst (push_values vs c i st)) i, snd (push_values vs c i st))
       \<and> (\<forall>cf sf. length (stack sf) = 16 \<longrightarrow> Push cf i sf = (cf, sf))
       \<and> rd_a (fst (Pop c i st)) i = 0
       \<and> stack (snd (Pop c i st)) = []"
proof -
  have s: "stack (snd (push_values vs c i st)) = vs"
    using push_values_stack [of st vs c i] assms by simp
  have "fst (pop_values 16 (fst (push_values vs c i st)) i (snd (push_values vs c i st))) = rev vs
       \<and> stack (snd (snd (pop_values 16 (fst (push_values vs c i st)) i
                                 (snd (push_values vs c i st))))) = []"
    using pop_values_stack [of "snd (push_values vs c i st)" "[]" vs 16 "fst (push_values vs c i st)" i]
      s assms by simp
  moreover have "Push (wr_a v (fst (push_values vs c i st)) i) i (snd (push_values vs c i st))
           = (wr_a v (fst (push_values vs c i st)) i, snd (push_values vs c i st))"
    using s assms by (simp add: Push_def)
  moreover have "\<forall>cf sf. length (stack sf) = 16 \<longrightarrow> Push cf i sf = (cf, sf)"
    by (simp add: Push_def)
  moreover have "rd_a (fst (Pop c i st)) i = 0 \<and> stack (snd (Pop c i st)) = []"
    using assms by (simp add: Pop_def rd_wr_a)
  ultimately show ?thesis by simp
qed

theorem push_pop_round_trip_witness:
  "fst (pop_values 16
         (fst (push_values [1, 2, 3, 4, 5, 6, 7, 8, 9, 10, 11, 12, 13, 14, 15, 16]
                 \<lparr>registers = (\<lambda>_. 0), program_counter = 0\<rparr>
                 \<lparr>op_code = OP_Push, arg0 = 0, arg1 = 1, arg2 = 2, tag = 0\<rparr>
                 (new_CPUState 0)))
         \<lparr>op_code = OP_Push, arg0 = 0, arg1 = 1, arg2 = 2, tag = 0\<rparr>
         (snd (push_values [1, 2, 3, 4, 5, 6, 7, 8, 9, 10, 11, 12, 13, 14, 15, 16]
                 \<lparr>registers = (\<lambda>_. 0), program_counter = 0\<rparr>
                 \<lparr>op_code = OP_Push, arg0 = 0, arg1 = 1, arg2 = 2, tag = 0\<rparr>
                 (new_CPUState 0))))
     = [16, 15, 14, 13, 12, 11, 10, 9, 8, 7, 6, 5, 4, 3, 2, 1]"
  using push_pop_round_trip
          [of "new_CPUState 0" "[1, 2, 3, 4, 5, 6, 7, 8, 9, 10, 11, 12, 13, 14, 15, 16]"
              "\<lparr>registers = (\<lambda>_. 0), program_counter = 0\<rparr>"
              "\<lparr>op_code = OP_Push, arg0 = 0, arg1 = 1, arg2 = 2, tag = 0\<rparr>"]
  by (simp add: new_CPUState_def)

section \<open>Evaluation of the concrete world\<close>

lemma demo_state_simps:
  "host (demo_state p) = p" "in_progress_repro (demo_state p) = - 1"
  "location (demo_state p) = \<lparr>pos_index = 3, pop_id = 0\<rparr>"
  by (simp_all add: demo_state_def new_CPUState_def)

lemma demo_world_simps:
  "orgs demo_world 0 = \<lparr>IsHost = True, GetPoints = 100, GetHost = None\<rparr>"
  "orgs demo_world (Suc 0) = \<lparr>IsHost = False, GetPoints = 50, GetHost = Some 0\<rparr>"
  "GetConfig demo_world = demo_config" "to_reproduce demo_world = []"
  "SymEarnedDataNode demo_world = []" "SymDonatedDataNode demo_world = []"
  "SymStolenDataNode demo_world = []" "CheckTasks demo_world st v sh = 10"
  by (simp_all add: demo_world_def)

lemma demo_config_simps:
  "HOST_REPRO_RES demo_config = 10" "SYM_HORIZ_TRANS_RES demo_config = 5"
  "DONATION_STEAL_INST demo_config" "DONATE_PENALTY demo_config = 1 / 10"
  "STEAL_PENALTY demo_config = 1 / 10" "\<not> RANDOM_IO_INPUT demo_config"
  by (simp_all add: demo_config_def)

section \<open>Properties of reproduction\<close>

text \<open>
  C2. \<^const>\<open>Reproduce\<close> appends exactly the entry (organism, location) to the reproduction
  queue, deducts the cost of the organism's role from its points (the host cost for a
  host, the horizontal-transfer cost for a symbiont) and sets the in-progress marker to
  the index of the new entry, if and only if no reproduction is pending, the location is
  valid and the organism's points exceed that cost; in every other case it leaves the
  state and the world unchanged. The core is never changed.
\<close>

theorem Reproduce_enqueues_iff:
  assumes "Reproduce c i st w = (c', st', w')"
    and "cost = (if IsHost (orgs w (host st)) then HOST_REPRO_RES (GetConfig w)
                 else SYM_HORIZ_TRANS_RES (GetConfig w))"
  shows "(if in_progress_repro st = - 1 \<and> IsValid (location st)
             \<and> GetPoints (orgs w (host st)) > cost
          then to_reproduce w' = to_reproduce w @ [(host st, location st)]
             \<and> GetPoints (orgs w' (host st)) = GetPoints (orgs w (host st)) - cost
             \<and> in_progress_repro st' = int (length (to_reproduce w))
             \<and> to_reproduce w' ! nat (in_progress_repro st') = (host st, location st)
             \<and> st' = st\<lparr>in_progress_repro := int (length (to_reproduce w))\<rparr>
             \<and> w' = w\<lparr>orgs := (orgs w)(host st :=
                          (orgs w (host st))\<lparr>GetPoints := GetPoints (orgs w (host st)) - cost\<rparr>),
                       to_reproduce := to_reproduce w @ [(host st, location st)]\<rparr>
          else st' = st \<and> w' = w)
       \<and> c' = c
       \<and> (to_reproduce w' \<noteq> to_reproduce w \<longleftrightarrow>
            in_progress_repro st = - 1 \<and> IsValid (location st)
             \<and> GetPoints (orgs w (host st)) > cost)"
  using assms
  by (auto simp add: Reproduce_def Let_def org_AddPoints_def AddPoints_def split: if_splits)

theorem Reproduce_enqueues_iff_witness:
  "to_reproduce (snd (snd (Reproduce demo_core demo_inst (demo_state 0) demo_world)))
     = [(0, \<lparr>pos_index = 3, pop_id = 0\<rparr>)]
   \<and> GetPoints (orgs (snd (snd (Reproduce demo_core demo_inst (demo_state 0) demo_world))) 0) = 90
   \<and> in_progress_repro (fst (snd (Reproduce demo_core demo_inst (demo_state 0) demo_world))) = 0"
proof -
  let ?R = "Reproduce demo_core demo_inst (demo_state 0) demo_world"
  have r: "?R = (fst ?R, fst (snd ?R), snd (snd ?R))"
    by simp
  have c: "(10::real) = (if IsHost (orgs demo_world (host (demo_state 0)))
                         then HOST_REPRO_RES (GetConfig demo_world)
                         else SYM_HORIZ_TRANS_RES (GetConfig demo_world))"
    by (simp add: demo_state_simps demo_world_simps demo_config_simps)
  have g: "in_progress_repro (demo_state 0) = - 1 \<and> IsValid (location (demo_state 0))
             \<and> GetPoints (orgs demo_world (host (demo_state 0))) > 10"
    by (simp add: demo_state_simps demo_world_simps IsValid_def invalid_id_def)
  from Reproduce_enqueues_iff [OF r c] g
  have "to_reproduce (snd (snd ?R))
          = to_reproduce demo_world @ [(host (demo_state 0), location (demo_state 0))]
      \<and> GetPoints (orgs (snd (snd ?R)) (host (demo_state 0)))
          = GetPoints (orgs demo_world (host (demo_state 0))) - 10
      \<and> in_progress_repro (fst (snd ?R)) = int (length (to_reproduce demo_world))"
    by (simp only: if_True) simp
  then show ?thesis
    by (simp add: demo_state_simps demo_world_simps)
qed

section \<open>Properties of task scoring\<close>



section \<open>Properties of donation and theft\<close>




section \<open>Properties of reuptake\<close>

text \<open>
  C5, as stated, fails: the reuptake instructions do not score through the unshared path
  (the scorer called without the shared flag). With a scorer that returns 4 with the
  shared flag and 0 without it, the unshared score of the register value is 0, yet both
  reuptake instructions credit the organism 4 points.
\<close>

theorem Reuptake_unshared_counterexample:
  "CheckTasks demo_world_flag (demo_state 0) (rd_a demo_core demo_inst) False = 0
   \<and> GetPoints (orgs (snd (snd (ReuptakePublic demo_core demo_inst (demo_state 0)
                                   demo_world_flag))) 0)
       = GetPoints (orgs demo_world_flag 0) + 4
   \<and> GetPoints (orgs (snd (snd (ReuptakePrivate demo_core demo_inst (demo_state 0)
                                   demo_world_flag))) 0)
       = GetPoints (orgs demo_world_flag 0) + 4"
  by (simp add: ReuptakePublic_def ReuptakePrivate_def AddOrganismPoints_def Let_def
      org_AddPoints_def AddPoints_def demo_state_def new_CPUState_def demo_world_def
      demo_world_flag_def demo_scorer_def)

text \<open>
  C5, amended. The reuptake instructions (public and private) first score the value in
  the operand register through \<^const>\<open>AddOrganismPoints\<close>, that is with the scorer called
  with the shared flag set and the score credited in full, as \<^const>\<open>SharedIO\<close> does;
  then they take one value from the back of the corresponding internal-environment
  stack into the register and append that value to the input buffer; if that stack is
  empty, the register is set to zero and the CPU state is unchanged.
\<close>

theorem Reuptake_scores_then_pops:
  assumes "ReuptakePublic c i st w = (c1, st1, w1)"
    and "ReuptakePrivate c i st w = (c2, st2, w2)"
  shows "orgs w1 = orgs (AddOrganismPoints st (rd_a c i) w)
       \<and> orgs w2 = orgs (AddOrganismPoints st (rd_a c i) w)
       \<and> SymEarnedDataNode w1 = SymEarnedDataNode (AddOrganismPoints st (rd_a c i) w)
       \<and> SymEarnedDataNode w2 = SymEarnedDataNode (AddOrganismPoints st (rd_a c i) w)
       \<and> GetPoints (orgs w1 (host st))
           = GetPoints (orgs w (host st)) + CheckTasks w st (rd_a c i) True
       \<and> GetPoints (orgs w2 (host st))
           = GetPoints (orgs w (host st)) + CheckTasks w st (rd_a c i) True
       \<and> (if internalEnvironment st = [] then rd_a c1 i = 0 \<and> st1 = st
          else rd_a c1 i = last (internalEnvironment st)
             \<and> internalEnvironment st1 = butlast (internalEnvironment st)
             \<and> input_buf st1 = input_buf st @ [last (internalEnvironment st)])
       \<and> (if internalEnvironmentPrivate st = [] then rd_a c2 i = 0 \<and> st2 = st
          else rd_a c2 i = last (internalEnvironmentPrivate st)
             \<and> internalEnvironmentPrivate st2 = butlast (internalEnvironmentPrivate st)
             \<and> input_buf st2 = input_buf st @ [last (internalEnvironmentPrivate st)])"
  using assms
  by (auto simp add: ReuptakePublic_def ReuptakePrivate_def AddOrganismPoints_def Let_def
      org_AddPoints_def AddPoints_def rd_wr_a split: if_splits)

theorem Reuptake_scores_then_pops_witness:
  "GetPoints (orgs (snd (snd (ReuptakePublic demo_core demo_inst demo_state_env demo_world))) 0)
     = 110
   \<and> rd_a (fst (ReuptakePublic demo_core demo_inst demo_state_env demo_world)) demo_inst = 9
   \<and> internalEnvironment
        (fst (snd (ReuptakePublic demo_core demo_inst demo_state_env demo_world))) = [7]
   \<and> input_buf (fst (snd (ReuptakePublic demo_core demo_inst demo_state_env demo_world))) = [9]
   \<and> rd_a (fst (ReuptakePrivate demo_core demo_inst demo_state_env demo_world)) demo_inst = 0"
proof -
  let ?P = "ReuptakePublic demo_core demo_inst demo_state_env demo_world"
  let ?Q = "ReuptakePrivate demo_core demo_inst demo_state_env demo_world"
  have p: "?P = (fst ?P, fst (snd ?P), snd (snd ?P))"
    and q: "?Q = (fst ?Q, fst (snd ?Q), snd (snd ?Q))"
    by simp_all
  have e: "internalEnvironment demo_state_env = [7, 9]"
    "internalEnvironmentPrivate demo_state_env = []"
    "input_buf demo_state_env = []" "host demo_state_env = 0"
    by (simp_all add: demo_state_env_def demo_state_def new_CPUState_def)
  note th = Reuptake_scores_then_pops [OF p q]
  from th have pts: "GetPoints (orgs (snd (snd ?P)) (host demo_state_env))
      = GetPoints (orgs demo_world (host demo_state_env))
        + CheckTasks demo_world demo_state_env (rd_a demo_core demo_inst) True"
    by blast
  from th have pub: "if internalEnvironment demo_state_env = []
      then rd_a (fst ?P) demo_inst = 0 \<and> fst (snd ?P) = demo_state_env
      else rd_a (fst ?P) demo_inst = last (internalEnvironment demo_state_env)
         \<and> internalEnvironment (fst (snd ?P)) = butlast (internalEnvironment demo_state_env)
         \<and> input_buf (fst (snd ?P))
             = input_buf demo_state_env @ [last (internalEnvironment demo_state_env)]"
    by blast
  from th have priv: "if internalEnvironmentPrivate demo_state_env = []
      then rd_a (fst ?Q) demo_inst = 0 \<and> fst (snd ?Q) = demo_state_env
      else rd_a (fst ?Q) demo_inst = last (internalEnvironmentPrivate demo_state_env)
         \<and> internalEnvironmentPrivate (fst (snd ?Q))
             = butlast (internalEnvironmentPrivate demo_state_env)
         \<and> input_buf (fst (snd ?Q))
             = input_buf demo_state_env @ [last (internalEnvironmentPrivate demo_state_env)]"
    by blast
  from pts pub priv show ?thesis
    by (simp add: e demo_world_simps)
qed

section \<open>Properties of the jump table builder\<close>

lemma fill_jump_table_length:
  "fill_jump_table table prog idx jt = Inr jt' \<Longrightarrow> length jt' = length jt"
  by (induction prog arbitrary: idx jt) (auto split: if_splits)

lemma fill_jump_table_entries:
  "fill_jump_table table prog idx jt = Inr jt' \<Longrightarrow> k < length jt \<Longrightarrow>
     jt' ! k = (if idx \<le> k \<and> k < idx + length prog \<and> jump_class (prog ! (k - idx))
                then resolve table (prog ! (k - idx)) k else jt ! k)"
proof (induction prog arbitrary: idx jt)
  case Nil
  then show ?case by simp
next
  case (Cons i rest)
  show ?case
  proof (cases "jump_class i")
    case True
    with Cons.prems have b: "idx < length jt"
      and r: "fill_jump_table table rest (idx + 1) (jt[idx := resolve table i idx]) = Inr jt'"
      by (auto split: if_splits)
    from Cons.IH [OF r] Cons.prems(2)
    have ih: "jt' ! k = (if idx + 1 \<le> k \<and> k < idx + 1 + length rest
                            \<and> jump_class (rest ! (k - (idx + 1)))
                         then resolve table (rest ! (k - (idx + 1))) k
                         else jt[idx := resolve table i idx] ! k)"
      by simp
    show ?thesis
    proof (cases "k = idx")
      case True
      with ih b \<open>jump_class i\<close> show ?thesis by simp
    next
      case False
      have "(i # rest) ! (k - idx) = rest ! (k - (idx + 1))" if "idx \<le> k"
      proof -
        from that False have "k - idx = Suc (k - (idx + 1))" by arith
        then show ?thesis by simp
      qed
      with ih False show ?thesis by auto
    qed
  next
    case False
    with Cons.prems have r: "fill_jump_table table rest (idx + 1) jt = Inr jt'"
      by simp
    from Cons.IH [OF r] Cons.prems(2)
    have ih: "jt' ! k = (if idx + 1 \<le> k \<and> k < idx + 1 + length rest
                            \<and> jump_class (rest ! (k - (idx + 1)))
                         then resolve table (rest ! (k - (idx + 1))) k
                         else jt ! k)"
      by simp
    show ?thesis
    proof (cases "k = idx")
      case True
      with ih \<open>\<not> jump_class i\<close> show ?thesis by simp
    next
      case False
      have "(i # rest) ! (k - idx) = rest ! (k - (idx + 1))" if "idx \<le> k"
      proof -
        from that False have "k - idx = Suc (k - (idx + 1))" by arith
        then show ?thesis by simp
      qed
      with ih False show ?thesis by auto
    qed
  qed
qed

lemma fill_jump_table_succeeds_iff:
  "(\<exists>jt'. fill_jump_table table prog idx jt = Inr jt') \<longleftrightarrow>
     (\<forall>k < length prog. jump_class (prog ! k) \<longrightarrow> idx + k < length jt)"
proof (induction prog arbitrary: idx jt)
  case Nil
  then show ?case by simp
next
  case (Cons i rest)
  have split: "(\<forall>k < length (i # rest). jump_class ((i # rest) ! k) \<longrightarrow> idx + k < n) \<longleftrightarrow>
        (jump_class i \<longrightarrow> idx < n) \<and>
        (\<forall>k < length rest. jump_class (rest ! k) \<longrightarrow> idx + 1 + k < n)" for n
    by (auto simp add: All_less_Suc2 nth_Cons')
  show ?case
    unfolding split [of "length jt"]
    using Cons.IH [of "idx + 1" jt] Cons.IH [of "idx + 1" "jt[idx := resolve table i idx]"]
    by auto
qed

lemma InitializeState_jump_table:
  assumes "InitializeState table w prog st = Inr st'"
  shows "fill_jump_table table prog 0 (resize 100 0 (jump_table st)) = Inr (jump_table st')"
  using assms by (auto simp add: InitializeState_def split: sum.splits)

lemma length_resize: "length (resize n d xs) = n"
  by (simp add: resize_def)

lemma InitializeState_length:
  "InitializeState table w prog st = Inr st' \<Longrightarrow> length (jump_table st') = 100"
  using fill_jump_table_length [OF InitializeState_jump_table] by (simp add: length_resize)

lemma InitializeState_succeeds_iff:
  "(\<exists>st'. InitializeState table w prog st = Inr st') \<longleftrightarrow>
     (\<forall>k < length prog. jump_class (prog ! k) \<longrightarrow> k < 100)"
proof -
  have "(\<exists>st'. InitializeState table w prog st = Inr st') \<longleftrightarrow>
        (\<exists>jt'. fill_jump_table table prog 0 (resize 100 0 (jump_table st)) = Inr jt')"
    by (auto simp add: InitializeState_def split: sum.splits)
  then show ?thesis
    using fill_jump_table_succeeds_iff [of table prog 0 "resize 100 0 (jump_table st)"]
    by (simp add: length_resize)
qed

lemma demo_program_in_bounds:
  "\<forall>j < length demo_program. jump_class (demo_program ! j) \<longrightarrow> j < 100"
  by (simp add: demo_program_def)



text \<open>
  C10. \<^const>\<open>InitializeState\<close> resizes the jump table to 100 entries and writes an entry
  at the index of every jump-class instruction. It completes without an out-of-bounds
  write exactly when every jump-class instruction sits at an index below 100; the table
  then has 100 entries. In particular it completes for every program of at most 100
  instructions.
\<close>

theorem InitializeState_bounds:
  "((\<exists>st'. InitializeState table w prog st = Inr st') \<longleftrightarrow>
      (\<forall>k < length prog. jump_class (prog ! k) \<longrightarrow> k < 100))
   \<and> (\<forall>st'. InitializeState table w prog st = Inr st' \<longrightarrow> length (jump_table st') = 100)
   \<and> (length prog \<le> 100 \<longrightarrow> (\<exists>st'. InitializeState table w prog st = Inr st'))"
proof -
  have "\<exists>st'. InitializeState table w prog st = Inr st'" if "length prog \<le> 100"
    using that InitializeState_succeeds_iff [of table w prog st] by auto
  then show ?thesis
    using InitializeState_succeeds_iff [of table w prog st] InitializeState_length [of table w prog st]
    by blast
qed

theorem InitializeState_bounds_witness:
  "(\<exists>st'. InitializeState demo_table demo_world demo_program (new_CPUState 0) = Inr st'
          \<and> length (jump_table st') = 100)
   \<and> InitializeState demo_table demo_world demo_long_program (new_CPUState 0)
       = Inl OutOfBounds"
proof -
  have s: "length demo_program \<le> 100"
    by (simp add: demo_program_def)
  have "length demo_long_program = 101" and "demo_long_program ! 100 = demo_jump"
    by (simp_all add: demo_long_program_def nth_append)
  then have l: "\<not> (\<forall>k < length demo_long_program.
                      jump_class (demo_long_program ! k) \<longrightarrow> k < 100)"
    by (auto simp add: jump_class_def demo_jump_def intro!: exI [of _ 100])
  have "\<exists>st'. InitializeState demo_table demo_world demo_program (new_CPUState 0) = Inr st'
          \<and> length (jump_table st') = 100"
    using InitializeState_bounds [of demo_table demo_world demo_program "new_CPUState 0"] s
    by blast
  moreover have "InitializeState demo_table demo_world demo_long_program (new_CPUState 0)
       = Inl OutOfBounds"
  proof (cases "InitializeState demo_table demo_world demo_long_program (new_CPUState 0)")
    case (Inl e)
    then show ?thesis by (cases e) simp
  next
    case (Inr st')
    with InitializeState_bounds [of demo_table demo_world demo_long_program "new_CPUState 0"] l
    show ?thesis by blast
  qed
  ultimately show ?thesis by simp
qed

text \<open>
  C1, as stated, fails: the rebuilt jump table of a CPU constructed from a program of
  three instructions has 100 entries, not three.
\<close>

theorem jump_table_size_counterexample:
  "jump_table_size (CPU_new demo_anchors demo_world 0 demo_program) = Some 100
   \<and> jump_table_size (CPU_new demo_anchors demo_world 0 demo_program)
       \<noteq> Some (length demo_program)"
  by (simp add: jump_table_size_def CPU_new_def CPU_build_def InitializeState_def
      demo_program_def demo_jump_def jump_class_def new_CPUState_def resize_def)

text \<open>
  C1, amended. For every program and anchor table, after the jump table is rebuilt (at
  CPU construction, after \<^const>\<open>Reset\<close> or after \<^const>\<open>Mutate\<close>), which completes exactly
  when every jump-class instruction of the (possibly mutated) program sits at an index
  below 100, the jump table has 100 entries whatever the program's length; its size
  equals the program's length for programs of 100 instructions.
\<close>

theorem rebuilt_jump_table_size:
  "jump_table_size (CPU_new anchors w organism prog)
     = (if (\<forall>k < length prog. jump_class (prog ! k) \<longrightarrow> k < 100) then Some 100 else None)
   \<and> jump_table_size (Reset anchors w cpu)
     = (if (\<forall>k < length (program cpu). jump_class (program cpu ! k) \<longrightarrow> k < 100)
        then Some 100 else None)
   \<and> jump_table_size (Mutate mut anchors w cpu)
     = (if (\<forall>k < length (mut (MUTATION_SIZE (GetConfig w) * 15) (program cpu)).
              jump_class (mut (MUTATION_SIZE (GetConfig w) * 15) (program cpu) ! k) \<longrightarrow> k < 100)
        then Some 100 else None)
   \<and> (length prog = 100 \<longrightarrow> jump_table_size (CPU_new anchors w organism prog) = Some (length prog))"
proof -
  have b: "jump_table_size (CPU_build anchors w p s)
     = (if (\<forall>k < length p. jump_class (p ! k) \<longrightarrow> k < 100) then Some 100 else None)" for p s
  proof (cases "InitializeState (anchors p) w p s")
    case (Inl e)
    then have "\<not> (\<forall>k < length p. jump_class (p ! k) \<longrightarrow> k < 100)"
      using InitializeState_succeeds_iff [of "anchors p" w p s] by simp
    with Inl show ?thesis
      by (simp add: CPU_build_def jump_table_size_def)
  next
    case (Inr st')
    then have "\<forall>k < length p. jump_class (p ! k) \<longrightarrow> k < 100"
      using InitializeState_succeeds_iff [of "anchors p" w p s] by blast
    with Inr InitializeState_length [OF Inr] show ?thesis
      by (simp add: CPU_build_def jump_table_size_def)
  qed
  show ?thesis
    by (simp add: CPU_new_def Reset_def Mutate_def b)
qed

theorem rebuilt_jump_table_size_witness:
  "jump_table_size (CPU_new demo_anchors demo_world 0 demo_program) = Some 100"
  using rebuilt_jump_table_size [of demo_anchors demo_world 0 demo_program]
    demo_program_in_bounds
  by simp

end
